theory Spec2Isabelle
  imports Main "HOL-Library.Sublist"
begin

section \<open>JavaScript values and strings\<close>

text \<open>
  The front end is JavaScript. Strings are modelled as \<^typ>\<open>string\<close>, that is, as lists of
  8-bit characters: the code units 0..255 of a JavaScript string. The values a parsed JSON
  message can hold in a field are the primitives below; \<open>JUndefined\<close> is what reading an
  absent field gives.
\<close>

datatype js_value = JUndefined | JNull | JBool bool | JNumber int | JString string

text \<open>An object literal handed to \<open>JSON.stringify\<close>: its keys in order, with their values.\<close>

type_synonym json_object = "(string \<times> js_value) list"

abbreviation NL :: char where "NL \<equiv> CHR 0x0A"
abbreviation CR :: char where "CR \<equiv> CHR 0x0D"

section \<open>TerminalView: the interactive terminal client\<close>

text \<open>
  The xterm instance: its dimensions and the sequence of strings handed to \<open>term.write\<close>
  and \<open>term.writeln\<close> (the latter appends CR LF). What is displayed is the concatenation of
  what was written.
\<close>

record xterm =
  cols :: nat
  rows :: nat
  written :: "string list"

definition display :: "xterm \<Rightarrow> string" where
  "display t = concat (written t)"

definition term_write :: "string \<Rightarrow> xterm \<Rightarrow> xterm" where
  "term_write s t = t\<lparr>written := written t @ [s]\<rparr>"

definition term_writeln :: "string \<Rightarrow> xterm \<Rightarrow> xterm" where
  "term_writeln s t = term_write (s @ [CR, NL]) t"

datatype ready_state = CONNECTING | OPEN | CLOSING | CLOSED

text \<open>The terminal websocket: its \<open>readyState\<close> and the objects serialised and sent on it.\<close>

record websocket =
  readyState :: ready_state
  sent :: "json_object list"

definition ws_send :: "json_object \<Rightarrow> websocket \<Rightarrow> websocket" where
  "ws_send m w = w\<lparr>sent := sent w @ [m]\<rparr>"

text \<open>
  \<open>fitAddon.fit()\<close> belongs to the xterm library: it either throws or leaves the terminal
  with the dimensions that fit its container (possibly the ones it had).
\<close>

datatype fit_outcome = FitThrows | FitTo nat nat

text \<open>What arrives in \<open>event.data\<close>: a string for a text frame, a Blob or ArrayBuffer otherwise.\<close>

datatype frame = TextFrame string | BinaryFrame "nat list"

definition resize_message :: "nat \<Rightarrow> nat \<Rightarrow> json_object" where
  "resize_message c r =
     [(''type'', JString ''resize''), (''cols'', JNumber (int c)), (''rows'', JNumber (int r))]"

definition input_message :: "string \<Rightarrow> json_object" where
  "input_message d = [(''type'', JString ''input''), (''data'', JString d)]"

text \<open>
  \<open>trySendResize\<close> (part_003, lines 89-101), a closure over the initialised \<open>term\<close> and
  \<open>ws\<close>: fit, read the dimensions, send them if the socket is open; an exception of
  \<open>fit\<close> is caught and nothing is sent.
\<close>

definition trySendResize :: "fit_outcome \<Rightarrow> xterm \<times> websocket \<Rightarrow> xterm \<times> websocket" where
  "trySendResize f tw =
     (case tw of (t, w) \<Rightarrow>
        (case f of
           FitThrows \<Rightarrow> (t, w)
         | FitTo c r \<Rightarrow>
             (let t' = t\<lparr>cols := c, rows := r\<rparr>
              in if readyState w = OPEN
                 then (t', ws_send (resize_message (cols t') (rows t')) w)
                 else (t', w))))"

text \<open>
  \<open>ws.onmessage\<close> (lines 108-113) writes \<open>typeof data === 'string' ? data : ''\<close>: a
  string as it is, anything else as \<open>''\<close>.
  The handler then copies the text of the xterm buffer into the React state
  \<open>terminalContent\<close> for the AI chat; that state touches neither the terminal nor the
  socket and is left out.
\<close>

definition payload :: "frame \<Rightarrow> string" where
  "payload d = (case d of TextFrame s \<Rightarrow> s | BinaryFrame _ \<Rightarrow> [])"

definition ws_onmessage :: "frame \<Rightarrow> xterm \<times> websocket \<Rightarrow> xterm \<times> websocket" where
  "ws_onmessage d tw = (case tw of (t, w) \<Rightarrow> (term_write (payload d) t, w))"

definition ws_onclose :: "xterm \<times> websocket \<Rightarrow> xterm \<times> websocket" where
  "ws_onclose tw = (case tw of (t, w) \<Rightarrow> (term_writeln ([CR, NL] @ ''[disconnected]'') t, w))"

definition ws_onerror :: "xterm \<times> websocket \<Rightarrow> xterm \<times> websocket" where
  "ws_onerror tw =
     (case tw of (t, w) \<Rightarrow>
        (term_writeln ([CR, NL] @ ''[error: terminal websocket failed]'') t, w))"

text \<open>The \<open>term.onData\<close> handler (lines 124-128): a keystroke goes out only on an open socket.\<close>

definition term_onData :: "string \<Rightarrow> xterm \<times> websocket \<Rightarrow> xterm \<times> websocket" where
  "term_onData d tw =
     (case tw of (t, w) \<Rightarrow>
        if readyState w = OPEN then (t, ws_send (input_message d) w) else (t, w))"

text \<open>
  The component's refs: \<open>termRef.current\<close> and \<open>wsRef.current\<close> are null until
  \<open>initTerminal\<close> has run.
\<close>

record terminal_view =
  termRef :: "xterm option"
  wsRef :: "websocket option"

text \<open>\<open>sendCommandToTerminal\<close> (lines 190-194), the callback given to the AI chat.\<close>

definition sendCommandToTerminal :: "string \<Rightarrow> terminal_view \<Rightarrow> terminal_view" where
  "sendCommandToTerminal command v =
     (case wsRef v of
        None \<Rightarrow> v
      | Some w \<Rightarrow>
          if readyState w = OPEN
          then v\<lparr>wsRef := Some (ws_send (input_message (command @ [NL])) w)\<rparr>
          else v)"

text \<open>\<open>refitTerminal\<close> (lines 197-210), run after a layout change.\<close>

definition refitTerminal :: "fit_outcome \<Rightarrow> terminal_view \<Rightarrow> terminal_view" where
  "refitTerminal f v =
     (case termRef v of
        None \<Rightarrow> v
      | Some t \<Rightarrow>
          (case f of
             FitThrows \<Rightarrow> v
           | FitTo c r \<Rightarrow>
               (let t' = t\<lparr>cols := c, rows := r\<rparr>
                in case wsRef v of
                     None \<Rightarrow> v\<lparr>termRef := Some t'\<rparr>
                   | Some w \<Rightarrow>
                       if readyState w = OPEN
                       then v\<lparr>termRef := Some t',
                              wsRef := Some (ws_send (resize_message (cols t') (rows t')) w)\<rparr>
                       else v\<lparr>termRef := Some t'\<rparr>)))"

text \<open>
  A handler registered inside \<open>initTerminal\<close> runs on the terminal and socket that
  \<open>initTerminal\<close> created; before that no such handler exists.
\<close>

definition in_closure ::
  "(xterm \<times> websocket \<Rightarrow> xterm \<times> websocket) \<Rightarrow> terminal_view \<Rightarrow> terminal_view" where
  "in_closure h v =
     (case (termRef v, wsRef v) of
        (Some t, Some w) \<Rightarrow> (case h (t, w) of (t', w') \<Rightarrow> v\<lparr>termRef := Some t', wsRef := Some w'\<rparr>)
      | _ \<Rightarrow> v)"

definition set_readyState :: "ready_state \<Rightarrow> xterm \<times> websocket \<Rightarrow> xterm \<times> websocket" where
  "set_readyState s tw = (case tw of (t, w) \<Rightarrow> (t, w\<lparr>readyState := s\<rparr>))"

text \<open>
  Everything that can make the terminal client run code that touches the socket or the
  terminal. The browser has set \<open>readyState\<close> to \<open>OPEN\<close> when it calls \<open>onopen\<close>, and to
  \<open>CLOSED\<close> when it calls \<open>onclose\<close>.
\<close>

datatype tv_event =
    WsOpen fit_outcome
  | WsMessage frame
  | WsClose
  | WsError
  | TermData string
  | WindowResize fit_outcome
  | ChatCommand string
  | LayoutChange fit_outcome

fun tv_handle :: "tv_event \<Rightarrow> terminal_view \<Rightarrow> terminal_view" where
  "tv_handle (WsOpen f) v = in_closure (trySendResize f \<circ> set_readyState OPEN) v"
| "tv_handle (WsMessage d) v = in_closure (ws_onmessage d) v"
| "tv_handle WsClose v = in_closure (ws_onclose \<circ> set_readyState CLOSED) v"
| "tv_handle WsError v = in_closure ws_onerror v"
| "tv_handle (TermData d) v = in_closure (term_onData d) v"
| "tv_handle (WindowResize f) v = in_closure (trySendResize f) v"
| "tv_handle (ChatCommand c) v = sendCommandToTerminal c v"
| "tv_handle (LayoutChange f) v = refitTerminal f v"

definition sent_on :: "terminal_view \<Rightarrow> json_object list" where
  "sent_on v = (case wsRef v of None \<Rightarrow> [] | Some w \<Rightarrow> sent w)"

definition socket_open :: "terminal_view \<Rightarrow> bool" where
  "socket_open v = (case wsRef v of None \<Rightarrow> False | Some w \<Rightarrow> readyState w = OPEN)"

text \<open>The two message shapes of the interactive channel, as tests on a sent object.\<close>

fun is_input :: "json_object \<Rightarrow> bool" where
  "is_input [(k1, JString t), (k2, JString d)] = (k1 = ''type'' \<and> t = ''input'' \<and> k2 = ''data'')"
| "is_input _ = False"

fun is_resize_of :: "terminal_view \<Rightarrow> json_object \<Rightarrow> bool" where
  "is_resize_of v [(k1, JString t), (k2, JNumber c), (k3, JNumber r)] =
     (k1 = ''type'' \<and> t = ''resize'' \<and> k2 = ''cols'' \<and> k3 = ''rows'' \<and>
      (case termRef v of None \<Rightarrow> False | Some x \<Rightarrow> c = int (cols x) \<and> r = int (rows x)))"
| "is_resize_of v _ = False"

text \<open>What an event may send: keystrokes as they are, a chat command with one newline.\<close>

fun may_send :: "tv_event \<Rightarrow> terminal_view \<Rightarrow> json_object \<Rightarrow> bool" where
  "may_send (TermData d) v m = (m = input_message d)"
| "may_send (ChatCommand c) v m = (m = input_message (c @ [NL]))"
| "may_send ev v m = is_resize_of v m"

definition new_messages :: "tv_event \<Rightarrow> terminal_view \<Rightarrow> json_object list" where
  "new_messages ev v = drop (length (sent_on v)) (sent_on (tv_handle ev v))"

section \<open>Strings: lines and whitespace\<close>

text \<open>
  The characters JavaScript's \<open>trim\<close> removes and \<open>\s\<close> matches, among the code units
  0..255: tab, line feed, vertical tab, form feed, carriage return, space and the
  no-break space.
\<close>

definition is_space :: "char \<Rightarrow> bool" where
  "is_space c = (c \<in> set [CHR 0x09, NL, CHR 0x0B, CHR 0x0C, CR, CHR 0x20, CHR 0xA0])"

definition trim :: "string \<Rightarrow> string" where
  "trim s = rev (dropWhile is_space (rev (dropWhile is_space s)))"

text \<open>
  \<open>s.split('\n')\<close>: the pieces between line feeds; the empty string gives one empty piece.
  (The second branch of the \<open>case\<close> is never taken: the result is never empty.)
\<close>

fun split_nl :: "string \<Rightarrow> string list" where
  "split_nl [] = [[]]"
| "split_nl (c # cs) =
     (if c = NL then [] # split_nl cs
      else (case split_nl cs of l # ls \<Rightarrow> (c # l) # ls | [] \<Rightarrow> [[c]]))"

text \<open>\<open>lines.join('\n')\<close>.\<close>

fun join_nl :: "string list \<Rightarrow> string" where
  "join_nl [] = []"
| "join_nl [l] = l"
| "join_nl (l # m # ls) = l @ NL # join_nl (m # ls)"

section \<open>Plain objects used as dictionaries\<close>

text \<open>
  \<open>liveOutputs\<close> and \<open>aiSelected\<close> are plain objects (\<open>{}\<close>, \<open>{...prev}\<close>) used as
  dictionaries. Their own properties are a map from keys to values; besides those, a plain
  object inherits the properties of \<open>Object.prototype\<close>, whose names are listed here. The
  inherited values are functions, except for the accessor \<open>__proto__\<close>, which reads as the
  prototype object.
\<close>

definition object_prototype_keys :: "string list" where
  "object_prototype_keys =
     [''constructor'', ''__defineGetter__'', ''__defineSetter__'', ''hasOwnProperty'',
      ''__lookupGetter__'', ''__lookupSetter__'', ''isPrototypeOf'', ''propertyIsEnumerable'',
      ''toString'', ''valueOf'', ''__proto__'', ''toLocaleString'']"

text \<open>\<open>key in obj\<close>: true for an own property and for an inherited one.\<close>

definition js_in :: "string \<Rightarrow> (string \<rightharpoonup> 'v) \<Rightarrow> bool" where
  "js_in k obj = (obj k \<noteq> None \<or> k \<in> set object_prototype_keys)"

text \<open>
  \<open>obj[key] = value\<close> for a primitive \<open>value\<close>: it creates or updates the own property,
  except that with no own property \<open>__proto__\<close> the assignment reaches the inherited setter,
  which ignores a value that is not an object.
\<close>

definition js_assign :: "string \<Rightarrow> 'v \<Rightarrow> (string \<rightharpoonup> 'v) \<Rightarrow> (string \<rightharpoonup> 'v)" where
  "js_assign k x obj = (if k = ''__proto__'' \<and> obj k = None then obj else obj(k \<mapsto> x))"

text \<open>
  Whether \<open>obj[key]\<close> is truthy, for an object whose own values are booleans: an inherited
  function or object is truthy, \<open>undefined\<close> is not.
\<close>

definition js_truthy_at :: "(string \<rightharpoonup> bool) \<Rightarrow> string \<Rightarrow> bool" where
  "js_truthy_at obj k = (case obj k of Some b \<Rightarrow> b | None \<Rightarrow> k \<in> set object_prototype_keys)"

fun js_truthy :: "js_value \<Rightarrow> bool" where
  "js_truthy JUndefined = False"
| "js_truthy JNull = False"
| "js_truthy (JBool b) = b"
| "js_truthy (JNumber n) = (n \<noteq> 0)"
| "js_truthy (JString s) = (s \<noteq> [])"

section \<open>CommandExecutor: state\<close>

text \<open>An execution snapshot as the server returns it; \<open>commands\<close> may be missing.\<close>

record execution =
  exec_id :: string
  exec_status :: string
  commands :: "string list option"

text \<open>A step of an AI plan: \<open>{id, description, command}\<close>; the id as a property key.\<close>

record plan_step =
  step_id :: string
  description :: string
  command :: string

text \<open>
  A parsed message of the execution websocket. The fields the handler tests dynamically
  (\<open>===\<close>, \<open>typeof\<close>, truthiness) are JavaScript values; the command, used as a property
  key, and the error, interpolated into the toast, are the strings of the message shapes
  \<open>{type: execution_progress, command, status, output?}\<close> and
  \<open>{type: execution_failed, execution_id, error}\<close>.
\<close>

record ws_message =
  msg_type :: js_value
  msg_command :: string
  msg_status :: js_value
  msg_output :: js_value
  msg_execution_id :: js_value
  msg_error :: string

datatype toast = ToastInfo string | ToastSuccess string | ToastError string

text \<open>
  The HTTP requests the component issues: \<open>POST /devices/:id/execute\<close> with its command
  list, \<open>GET /executions/:execution_id\<close>, and \<open>GET /devices/:id/executions\<close>
  (\<open>loadExecutionHistory\<close>).
\<close>

datatype request = PostExecute "string list" | GetExecution js_value | GetExecutions

text \<open>
  The React state of the component, with the toasts shown and the requests issued so far.
  The file holds two versions of the component; the second adds the live outputs and the
  AI Runner to the state of the first.
\<close>

record command_executor =
  selectedCommands :: "string list"
  customCommands :: string
  execution :: "execution option"
  executionHistory :: "execution list"
  isExecuting :: bool
  toasts :: "toast list"
  requests :: "request list"

record command_executor_ext = command_executor +
  liveOutputs :: "string \<rightharpoonup> string"
  aiSteps :: "plan_step list"
  aiSelected :: "string \<rightharpoonup> bool"

definition toast_show :: "toast \<Rightarrow> ('a command_executor_scheme) \<Rightarrow> ('a command_executor_scheme)" where
  "toast_show t st = st\<lparr>toasts := toasts st @ [t]\<rparr>"

definition issue :: "request \<Rightarrow> ('a command_executor_scheme) \<Rightarrow> ('a command_executor_scheme)" where
  "issue r st = st\<lparr>requests := requests st @ [r]\<rparr>"

text \<open>\<open>loadExecutionHistory\<close> up to its \<open>await\<close>, and what it does with the answer.\<close>

definition loadExecutionHistory :: "('a command_executor_scheme) \<Rightarrow> ('a command_executor_scheme)" where
  "loadExecutionHistory st = issue GetExecutions st"

definition history_answered ::
  "execution list option \<Rightarrow> ('a command_executor_scheme) \<Rightarrow> ('a command_executor_scheme)" where
  "history_answered r st = (case r of Some h \<Rightarrow> st\<lparr>executionHistory := h\<rparr> | None \<Rightarrow> st)"

section \<open>CommandExecutor: the first version of the component\<close>

text \<open>\<open>handleWebSocketMessage\<close> of the first version (CommandExecutor.js, lines 84-101).\<close>

definition handleWebSocketMessage_basic :: "ws_message \<Rightarrow> command_executor \<Rightarrow> command_executor" where
  "handleWebSocketMessage_basic data st =
     (if msg_type data = JString ''execution_started''
        then toast_show (ToastInfo ''Command execution started'') st
      else if msg_type data = JString ''execution_completed''
        then loadExecutionHistory
               ((toast_show (ToastSuccess ''Commands executed successfully'') st)
                  \<lparr>isExecuting := False\<rparr>)
      else if msg_type data = JString ''execution_failed''
        then (toast_show (ToastError (''Execution failed: '' @ msg_error data)) st)
               \<lparr>isExecuting := False\<rparr>
      else st)"

section \<open>CommandExecutor: the second version of the component\<close>

text \<open>
  The updater given to \<open>setLiveOutputs\<close> for an \<open>execution_progress\<close> message
  (lines 609-618).
\<close>

definition progress_update ::
  "string \<Rightarrow> js_value \<Rightarrow> js_value \<Rightarrow> (string \<rightharpoonup> string) \<Rightarrow> (string \<rightharpoonup> string)" where
  "progress_update cmd status output prev =
     (let next = prev
      in if status = JString ''started'' \<and> \<not> js_in cmd next
           then js_assign cmd [] next
         else if status = JString ''completed'' \<or> status = JString ''error''
           then (case output of JString out \<Rightarrow> js_assign cmd out next | _ \<Rightarrow> next)
         else next)"

text \<open>
  The completed and failed branches fetch the execution when the message has a truthy
  \<open>execution_id\<close>; \<open>loadExecutionHistory\<close> runs in the \<open>finally\<close>, so at once when there
  is nothing to await.
\<close>

definition fetch_execution :: "js_value \<Rightarrow> command_executor_ext \<Rightarrow> command_executor_ext" where
  "fetch_execution i st =
     (if js_truthy i then issue (GetExecution i) st else loadExecutionHistory st)"

text \<open>
  The rest of those branches, once \<open>axios.get\<close> has answered: the snapshot is shown, or the
  failure is logged to the console; then the history is reloaded.
\<close>

definition execution_answered ::
  "execution option \<Rightarrow> command_executor_ext \<Rightarrow> command_executor_ext" where
  "execution_answered r st =
     loadExecutionHistory (case r of Some e \<Rightarrow> st\<lparr>execution := Some e\<rparr> | None \<Rightarrow> st)"

text \<open>
  \<open>handleWebSocketMessage\<close> of the second version (lines 602-657), up to the first \<open>await\<close>.
  The default branch only logs to the console.
\<close>

definition handleWebSocketMessage :: "ws_message \<Rightarrow> command_executor_ext \<Rightarrow> command_executor_ext" where
  "handleWebSocketMessage data st =
     (if msg_type data = JString ''execution_started''
        then (toast_show (ToastInfo ''Command execution started'') st)\<lparr>liveOutputs := Map.empty\<rparr>
      else if msg_type data = JString ''execution_progress''
        then st\<lparr>liveOutputs :=
                  progress_update (msg_command data) (msg_status data) (msg_output data)
                    (liveOutputs st)\<rparr>
      else if msg_type data = JString ''execution_completed''
        then fetch_execution (msg_execution_id data)
               ((toast_show (ToastSuccess ''Commands executed successfully'') st)
                  \<lparr>isExecuting := False\<rparr>)
      else if msg_type data = JString ''execution_failed''
        then fetch_execution (msg_execution_id data)
               ((toast_show (ToastError (''Execution failed: '' @ msg_error data)) st)
                  \<lparr>isExecuting := False\<rparr>)
      else st)"

text \<open>\<open>clearRanCommands\<close> (lines 709-725).\<close>

definition ran_commands :: "execution option \<Rightarrow> string set" where
  "ran_commands ex =
     set (case ex of None \<Rightarrow> [] | Some e \<Rightarrow> (case commands e of None \<Rightarrow> [] | Some cs \<Rightarrow> cs))"

definition clearRanCommands :: "command_executor_ext \<Rightarrow> command_executor_ext" where
  "clearRanCommands st =
     (let ran = ran_commands (execution st);
          st1 = st\<lparr>selectedCommands := filter (\<lambda>c. c \<notin> ran) (selectedCommands st)\<rparr>;
          st2 = st1\<lparr>customCommands :=
                      (case execution st of
                         None \<Rightarrow> customCommands st1
                       | Some _ \<Rightarrow>
                           (let lines = split_nl (customCommands st1);
                                kept = filter (\<lambda>line. trim line \<notin> ran) lines
                            in join_nl kept))\<rparr>
      in toast_show (ToastSuccess ''Cleared ran commands'') st2)"

text \<open>
  \<open>handleExecuteCommands\<close> (lines 735-761) up to the \<open>await\<close> of the POST, and the rest of
  it once the POST has answered (\<open>None\<close>: the request failed).
\<close>

definition handleExecuteCommands :: "command_executor_ext \<Rightarrow> command_executor_ext" where
  "handleExecuteCommands st =
     (let allCommands =
            selectedCommands st @ filter (\<lambda>cmd. trim cmd \<noteq> []) (split_nl (customCommands st))
      in if allCommands = []
         then toast_show (ToastError ''Please select or enter at least one command'') st
         else issue (PostExecute allCommands) (st\<lparr>isExecuting := True\<rparr>))"

definition execute_answered ::
  "execution option \<Rightarrow> command_executor_ext \<Rightarrow> command_executor_ext" where
  "execute_answered r st =
     (case r of
        Some e \<Rightarrow> toast_show (ToastInfo ''Commands are being executed...'') (st\<lparr>execution := Some e\<rparr>)
      | None \<Rightarrow> (toast_show (ToastError ''Failed to start command execution'') st)
                  \<lparr>isExecuting := False\<rparr>)"

text \<open>
  The AI Runner. A step's checkbox shows \<open>!!aiSelected[s.id]\<close> (line 1005); Run Plan
  (lines 1016-1029) filters the steps by \<open>aiSelected[s.id]\<close>.
\<close>

definition checked :: "command_executor_ext \<Rightarrow> plan_step \<Rightarrow> bool" where
  "checked st s = js_truthy_at (aiSelected st) (step_id s)"

text \<open>
  How the selection changes: a plan arrives and all its steps are selected by
  \<open>initSel[s.id] = true\<close> (lines 951-956); Select All does the same for the steps on
  display (lines 980-984); Clear sets \<open>{}\<close> (line 989); a checkbox sets
  \<open>{...prev, [s.id]: !!checked}\<close>, where the computed key always makes an own property
  (line 1006).
\<close>

definition select_every :: "plan_step list \<Rightarrow> (string \<rightharpoonup> bool)" where
  "select_every steps = fold (\<lambda>s sel. js_assign (step_id s) True sel) steps Map.empty"

definition plan_answered :: "plan_step list \<Rightarrow> command_executor_ext \<Rightarrow> command_executor_ext" where
  "plan_answered steps st =
     toast_show (ToastSuccess ''Plan ready'')
       (st\<lparr>aiSteps := steps, aiSelected := select_every steps\<rparr>)"

definition select_all :: "command_executor_ext \<Rightarrow> command_executor_ext" where
  "select_all st = st\<lparr>aiSelected := select_every (aiSteps st)\<rparr>"

definition clear_selection :: "command_executor_ext \<Rightarrow> command_executor_ext" where
  "clear_selection st = st\<lparr>aiSelected := Map.empty\<rparr>"

definition onCheckedChange :: "plan_step \<Rightarrow> bool \<Rightarrow> command_executor_ext \<Rightarrow> command_executor_ext" where
  "onCheckedChange s c st = st\<lparr>aiSelected := (aiSelected st)(step_id s \<mapsto> c)\<rparr>"

definition runPlan :: "command_executor_ext \<Rightarrow> command_executor_ext" where
  "runPlan st =
     (let cmds = map command (filter (\<lambda>s. js_truthy_at (aiSelected st) (step_id s)) (aiSteps st))
      in if cmds = []
         then toast_show (ToastError ''Select at least one step'') st
         else issue (PostExecute cmds) (st\<lparr>isExecuting := True\<rparr>))"

definition runPlan_answered ::
  "execution option \<Rightarrow> command_executor_ext \<Rightarrow> command_executor_ext" where
  "runPlan_answered r st =
     (case r of
        Some e \<Rightarrow> toast_show (ToastInfo ''Running AI plan...'') (st\<lparr>execution := Some e\<rparr>)
      | None \<Rightarrow> (toast_show (ToastError ''Failed to start AI plan'') st)\<lparr>isExecuting := False\<rparr>)"

text \<open>
  The buttons. Execute Commands is rendered with \<open>disabled={isExecuting}\<close> (line 1162);
  Run Plan is rendered, with no \<open>disabled\<close>, whenever the plan has steps (lines 972, 1015);
  Clear Ran Commands is disabled unless the execution has a non-empty command list
  (line 1154). A click on a button that is disabled or not rendered does nothing.
\<close>

datatype button = ExecuteCommands | RunPlan | ClearRanCommands

definition click :: "button \<Rightarrow> command_executor_ext \<Rightarrow> command_executor_ext" where
  "click b st =
     (case b of
        ExecuteCommands \<Rightarrow> if isExecuting st then st else handleExecuteCommands st
      | RunPlan \<Rightarrow> if aiSteps st = [] then st else runPlan st
      | ClearRanCommands \<Rightarrow>
          (case execution st of
             None \<Rightarrow> st
           | Some e \<Rightarrow>
               (case commands e of
                  None \<Rightarrow> st
                | Some cs \<Rightarrow> if cs = [] then st else clearRanCommands st)))"

text \<open>
  What the user can do with the selection of the plan on display: set the checkbox of a
  step, press Select All, press Clear.
\<close>

datatype selection_action = SetChecked plan_step bool | SelectAll | ClearSelection

fun act :: "selection_action \<Rightarrow> command_executor_ext \<Rightarrow> command_executor_ext" where
  "act (SetChecked s c) st = onCheckedChange s c st"
| "act SelectAll st = select_all st"
| "act ClearSelection st = clear_selection st"

text \<open>
  The steps the user has selected, by id, read off the controls as they are labelled and
  not off the code: a checkbox adds or removes its step, Select All selects every step of
  the plan, Clear leaves none selected; a plan arrives with every step selected.
\<close>

fun user_selection_after ::
  "plan_step list \<Rightarrow> selection_action \<Rightarrow> string set \<Rightarrow> string set" where
  "user_selection_after steps (SetChecked s c) sel =
     (if c then insert (step_id s) sel else sel - {step_id s})"
| "user_selection_after steps SelectAll sel = set (map step_id steps)"
| "user_selection_after steps ClearSelection sel = {}"

definition user_selection :: "plan_step list \<Rightarrow> selection_action list \<Rightarrow> string set" where
  "user_selection steps acts = fold (user_selection_after steps) acts (set (map step_id steps))"

section \<open>AIChat: commands extracted from an assistant reply\<close>

text \<open>
  \<open>extractCommandsFromText\<close> (part_001, lines 139-165) works with three regular
  expressions. Their matching is written out here for the patterns the code uses.
  The dot of a JavaScript regular expression matches every character but a line
  terminator; among the code units 0..255 those are line feed and carriage return.
\<close>

definition is_line_terminator :: "char \<Rightarrow> bool" where
  "is_line_terminator c = (c = NL \<or> c = CR)"

text \<open>
  Under the \<open>i\<close> flag two characters match when their upper-case forms agree; a letter of
  the pattern \<open>bash|sh\<close> is matched by its two ASCII cases only.
\<close>

definition ascii_upper :: "char \<Rightarrow> char" where
  "ascii_upper c =
     (let n = (of_char c :: nat) in if 97 \<le> n \<and> n \<le> 122 then char_of (n - 32) else c)"

text \<open>Matching a literal at the start of a string: what follows it, if it is there.\<close>

fun after_prefix :: "string \<Rightarrow> string \<Rightarrow> string option" where
  "after_prefix [] s = Some s"
| "after_prefix (p # ps) [] = None"
| "after_prefix (p # ps) (c # cs) = (if p = c then after_prefix ps cs else None)"

fun after_prefix_ci :: "string \<Rightarrow> string \<Rightarrow> string option" where
  "after_prefix_ci [] s = Some s"
| "after_prefix_ci (p # ps) [] = None"
| "after_prefix_ci (p # ps) (c # cs) =
     (if ascii_upper p = ascii_upper c then after_prefix_ci ps cs else None)"

text \<open>
  The head of \<open>/```(?:bash|sh)?\n([\s\S]*?)```/gim\<close> at the start of a string: the fence,
  then \<open>bash\<close>, or else \<open>sh\<close>, or else nothing, then a line feed. The result is the text
  after the line feed.
\<close>

definition block_open :: "string \<Rightarrow> string option" where
  "block_open s =
     (case after_prefix ''```'' s of
        None \<Rightarrow> None
      | Some r \<Rightarrow>
          (case Option.bind (after_prefix_ci ''bash'' r) (after_prefix [NL]) of
             Some body \<Rightarrow> Some body
           | None \<Rightarrow>
               (case Option.bind (after_prefix_ci ''sh'' r) (after_prefix [NL]) of
                  Some body \<Rightarrow> Some body
                | None \<Rightarrow> after_prefix [NL] r)))"

text \<open>
  The rest of it, \<open>([\s\S]*?)```\<close>: the shortest text that a fence follows, with what
  comes after that fence.
\<close>

fun until_fence :: "string \<Rightarrow> (string \<times> string) option" where
  "until_fence [] = None"
| "until_fence (c # cs) =
     (case after_prefix ''```'' (c # cs) of
        Some r \<Rightarrow> Some ([], r)
      | None \<Rightarrow> (case until_fence cs of None \<Rightarrow> None | Some (g, r) \<Rightarrow> Some (c # g, r)))"

text \<open>A match of the whole expression at the start of a string: group 1 and the text after the match.\<close>

definition block_at :: "string \<Rightarrow> (string \<times> string) option" where
  "block_at s = (case block_open s of None \<Rightarrow> None | Some body \<Rightarrow> until_fence body)"

lemma after_prefix_length: "after_prefix p s = Some r \<Longrightarrow> length r + length p = length s"
  by (induction p s rule: after_prefix.induct) (auto split: if_splits)

lemma after_prefix_ci_length: "after_prefix_ci p s = Some r \<Longrightarrow> length r + length p = length s"
  by (induction p s rule: after_prefix_ci.induct) (auto split: if_splits)

lemma after_NL_length:
  "Option.bind m (after_prefix [NL]) = Some body \<Longrightarrow> \<exists>r. m = Some r \<and> length body < length r"
  by (cases m) (auto dest: after_prefix_length)

lemma block_open_length:
  assumes "block_open s = Some body"
  shows "length body < length s"
proof -
  from assms obtain r where r: "after_prefix ''```'' s = Some r"
    by (auto simp: block_open_def split: option.splits)
  then have rs: "length r < length s"
    by (auto dest: after_prefix_length)
  from assms r consider
      (bash) "Option.bind (after_prefix_ci ''bash'' r) (after_prefix [NL]) = Some body"
    | (sh) "Option.bind (after_prefix_ci ''sh'' r) (after_prefix [NL]) = Some body"
    | (none) "after_prefix [NL] r = Some body"
    by (auto simp: block_open_def split: option.splits)
  then have "length body \<le> length r"
  proof cases
    case bash
    then obtain r' where "after_prefix_ci ''bash'' r = Some r'" "length body < length r'"
      using after_NL_length by blast
    then show ?thesis by (auto dest: after_prefix_ci_length)
  next
    case sh
    then obtain r' where "after_prefix_ci ''sh'' r = Some r'" "length body < length r'"
      using after_NL_length by blast
    then show ?thesis by (auto dest: after_prefix_ci_length)
  next
    case none
    then show ?thesis by (auto dest: after_prefix_length)
  qed
  with rs show ?thesis by simp
qed

lemma until_fence_length: "until_fence s = Some (g, r) \<Longrightarrow> length r < length s"
proof (induction s arbitrary: g r)
  case Nil
  then show ?case by simp
next
  case (Cons c cs)
  show ?case
  proof (cases "after_prefix ''```'' (c # cs)")
    case (Some r')
    with Cons.prems have "r' = r" by simp
    with Some have "length r + length ''```'' = length (c # cs)"
      by (simp only: after_prefix_length)
    then show ?thesis by simp
  next
    case None
    with Cons.prems obtain g' where "until_fence cs = Some (g', r)"
      by (auto split: option.splits)
    then have "length r < length cs" by (rule Cons.IH)
    then show ?thesis by simp
  qed
qed

lemma block_at_length:
  assumes "block_at s = Some (g, r)"
  shows "length r < length s"
proof -
  from assms obtain body where "block_open s = Some body" "until_fence body = Some (g, r)"
    by (auto simp: block_at_def split: option.splits)
  then have "length body < length s" "length r < length body"
    by (auto dest: block_open_length until_fence_length)
  then show ?thesis by simp
qed

text \<open>
  The loop \<open>while ((m = codeBlockRegex.exec(text)) !== null)\<close>: \<open>exec\<close> finds the first
  position, from \<open>lastIndex\<close> on, where the expression matches, and leaves \<open>lastIndex\<close>
  after the match. The result lists group 1 of every match.
\<close>

function code_blocks :: "string \<Rightarrow> string list" where
  "code_blocks s =
     (case block_at s of
        Some (g, r) \<Rightarrow> g # code_blocks r
      | None \<Rightarrow> (case s of [] \<Rightarrow> [] | c # cs \<Rightarrow> code_blocks cs))"
  by pat_completeness auto
termination
  by (relation "measure length") (auto dest: block_at_length)

declare code_blocks.simps [simp del]

text \<open>\<open>ln.replace(/^\$\s*/, '')\<close> and \<open>ln.startsWith('#')\<close>.\<close>

definition strip_prompt :: "string \<Rightarrow> string" where
  "strip_prompt ln =
     (case ln of [] \<Rightarrow> [] | c # r \<Rightarrow> if c = CHR ''$'' then dropWhile is_space r else ln)"

definition is_comment :: "string \<Rightarrow> bool" where
  "is_comment ln = (case ln of [] \<Rightarrow> False | c # _ \<Rightarrow> c = CHR ''#'')"

text \<open>The lines of one code block: prompt stripped, trimmed, empty lines and comments dropped.\<close>

definition block_commands :: "string \<Rightarrow> string list" where
  "block_commands g =
     filter (\<lambda>ln. ln \<noteq> [] \<and> \<not> is_comment ln)
       (map (\<lambda>ln. trim (strip_prompt ln)) (split_nl g))"

text \<open>
  \<open>ln.match(/^\$\s*(.+)$/)?.[1]\<close>: after the dollar, \<open>\s*\<close> takes the longest run of
  white space for which the rest of the line, to its end, is one or more characters none
  of which is a line terminator; group 1 is that rest.
\<close>

definition dollar_line :: "string \<Rightarrow> string option" where
  "dollar_line ln =
     (case ln of
        [] \<Rightarrow> None
      | c # r \<Rightarrow>
          if c \<noteq> CHR ''$'' then None
          else find (\<lambda>g. g \<noteq> [] \<and> \<not> (\<exists>x \<in> set g. is_line_terminator x))
                 (map (\<lambda>k. drop k r) (rev [0 ..< Suc (length (takeWhile is_space r))])))"

text \<open>The dollar lines of the whole text; \<open>.filter(Boolean)\<close> drops the lines without a match.\<close>

definition dollar_lines :: "string \<Rightarrow> string list" where
  "dollar_lines text =
     List.map_filter
       (\<lambda>ln. case dollar_line ln of None \<Rightarrow> None | Some g \<Rightarrow> if g \<noteq> [] then Some g else None)
       (split_nl text)"

text \<open>The de-duplication loop over \<open>cmds\<close>, with its set \<open>seen\<close> and its list \<open>unique\<close>.\<close>

fun dedupe :: "string list \<Rightarrow> string set \<Rightarrow> string list \<Rightarrow> string list" where
  "dedupe [] seen unique = unique"
| "dedupe (c # cs) seen unique =
     (if c \<notin> seen then dedupe cs (insert c seen) (unique @ [c]) else dedupe cs seen unique)"

definition extractCommandsFromText :: "string \<Rightarrow> string list" where
  "extractCommandsFromText text =
     (if text = [] then []
      else (let cmds = concat (map block_commands (code_blocks text)) @ dollar_lines text
            in take 20 (dedupe cmds {} [])))"

text \<open>States used as examples.\<close>

definition example_view :: terminal_view where
  "example_view =
     \<lparr>termRef = Some \<lparr>cols = 80, rows = 24, written = []\<rparr>,
      wsRef = Some \<lparr>readyState = OPEN, sent = []\<rparr>\<rparr>"

definition example_executor :: command_executor_ext where
  "example_executor =
     \<lparr>selectedCommands = [''show version'', ''show clock''],
      customCommands = ''  show ip route '' @ [NL] @ ''show arp'',
      execution = Some \<lparr>exec_id = ''e1'', exec_status = ''completed'',
                        commands = Some [''show version'', ''show ip route'']\<rparr>,
      executionHistory = [], isExecuting = False, toasts = [], requests = [],
      liveOutputs = Map.empty,
      aiSteps = [\<lparr>step_id = ''1'', description = ''BGP neighbors'',
                  command = ''show ip bgp summary''\<rparr>,
                 \<lparr>step_id = ''2'', description = ''Routes'', command = ''show ip route''\<rparr>,
                 \<lparr>step_id = ''3'', description = ''Interfaces'',
                  command = ''show ip interface brief''\<rparr>],
      aiSelected = [''1'' \<mapsto> True, ''2'' \<mapsto> False, ''3'' \<mapsto> True]\<rparr>"

definition example_failed :: ws_message where
  "example_failed =
     \<lparr>msg_type = JString ''execution_failed'', msg_command = [], msg_status = JUndefined,
      msg_output = JUndefined, msg_execution_id = JString ''e1'',
      msg_error = ''device unreachable''\<rparr>"

section \<open>TerminalView: what goes over the terminal websocket\<close>

text \<open>
  C2. Whatever makes the terminal client run, the messages it puts on the terminal
  websocket extend what was sent before by at most one object; that object is
  \<open>{type: 'input', data}\<close> with a string \<open>data\<close> (the keystrokes as they are for terminal
  input, the command followed by one newline for a command of the AI chat) or
  \<open>{type: 'resize', cols, rows}\<close> with the numbers the terminal then has as its dimensions;
  and an object is sent only when the socket is \<open>OPEN\<close>.
\<close>

theorem terminal_messages_shape:
  "sent_on (tv_handle ev v) = sent_on v @ new_messages ev v \<and>
   length (new_messages ev v) \<le> 1 \<and>
   (new_messages ev v \<noteq> [] \<longrightarrow> socket_open (tv_handle ev v)) \<and>
   (\<forall>m \<in> set (new_messages ev v).
      (is_input m \<or> is_resize_of (tv_handle ev v) m) \<and> may_send ev (tv_handle ev v) m)"
proof (cases "wsRef v")
  case None
  then show ?thesis
    by (cases ev)
       (simp_all add: new_messages_def sent_on_def in_closure_def sendCommandToTerminal_def
          refitTerminal_def Let_def split: option.splits fit_outcome.splits)
next
  case ws: (Some w)
  show ?thesis
  proof (cases "termRef v")
    case None
    with ws show ?thesis
      by (cases ev)
         (simp_all add: new_messages_def sent_on_def socket_open_def in_closure_def
            sendCommandToTerminal_def refitTerminal_def ws_send_def input_message_def)
  next
    case tm: (Some t)
    show ?thesis
    proof (cases ev)
      case (WsOpen f)
      with ws tm show ?thesis
        by (cases f)
           (simp_all add: new_messages_def sent_on_def socket_open_def in_closure_def
              set_readyState_def trySendResize_def ws_send_def resize_message_def Let_def)
    next
      case (WsMessage d)
      with ws tm show ?thesis
        by (simp add: new_messages_def sent_on_def in_closure_def ws_onmessage_def)
    next
      case WsClose
      with ws tm show ?thesis
        by (simp add: new_messages_def sent_on_def in_closure_def ws_onclose_def
              set_readyState_def)
    next
      case WsError
      with ws tm show ?thesis
        by (simp add: new_messages_def sent_on_def in_closure_def ws_onerror_def)
    next
      case (TermData d)
      with ws tm show ?thesis
        by (simp add: new_messages_def sent_on_def socket_open_def in_closure_def
              term_onData_def ws_send_def input_message_def)
    next
      case (WindowResize f)
      with ws tm show ?thesis
        by (cases f)
           (simp_all add: new_messages_def sent_on_def socket_open_def in_closure_def
              trySendResize_def ws_send_def resize_message_def Let_def)
    next
      case (ChatCommand c)
      with ws tm show ?thesis
        by (simp add: new_messages_def sent_on_def socket_open_def
              sendCommandToTerminal_def ws_send_def input_message_def)
    next
      case (LayoutChange f)
      with ws tm show ?thesis
        by (cases f)
           (simp_all add: new_messages_def sent_on_def socket_open_def refitTerminal_def
              ws_send_def resize_message_def Let_def)
    qed
  qed
qed

theorem terminal_messages_shape_witness:
  "new_messages (ChatCommand ''show version'') example_view
     = [[(''type'', JString ''input''), (''data'', JString (''show version'' @ [NL]))]] \<and>
   socket_open (tv_handle (ChatCommand ''show version'') example_view) \<and>
   is_input (hd (new_messages (ChatCommand ''show version'') example_view)) \<and>
   new_messages (WindowResize (FitTo 100 30)) example_view
     = [[(''type'', JString ''resize''), (''cols'', JNumber 100), (''rows'', JNumber 30)]] \<and>
   is_resize_of (tv_handle (WindowResize (FitTo 100 30)) example_view)
     (hd (new_messages (WindowResize (FitTo 100 30)) example_view))"
  using terminal_messages_shape [of "ChatCommand ''show version''" example_view]
    terminal_messages_shape [of "WindowResize (FitTo 100 30)" example_view]
  by (simp add: new_messages_def sent_on_def socket_open_def example_view_def
        sendCommandToTerminal_def in_closure_def trySendResize_def ws_send_def
        input_message_def resize_message_def Let_def)

text \<open>What a run of frames leaves in the terminal: one write per frame, in order.\<close>

lemma fold_ws_onmessage:
  "fold ws_onmessage ds (t, w) = (t\<lparr>written := written t @ map payload ds\<rparr>, w)"
proof (induction ds arbitrary: t)
  case Nil
  then show ?case by simp
next
  case (Cons d ds)
  have "ws_onmessage d (t, w) = (t\<lparr>written := written t @ [payload d]\<rparr>, w)"
    by (simp add: ws_onmessage_def term_write_def)
  then show ?case
    using Cons.IH [of "t\<lparr>written := written t @ [payload d]\<rparr>"] by simp
qed

text \<open>
  C3. A text frame received on the terminal websocket is handed to \<open>term.write\<close> exactly as
  it arrived: the terminal's write log grows by that one string, the display by its
  characters, and the handler changes nothing else. So a run of text frames is written, and
  displayed, in the order received with nothing added, dropped or changed.
\<close>

theorem ws_onmessage_text_verbatim:
  "ws_onmessage (TextFrame s) (t, w) = (t\<lparr>written := written t @ [s]\<rparr>, w) \<and>
   display (fst (ws_onmessage (TextFrame s) (t, w))) = display t @ s \<and>
   fold ws_onmessage (map TextFrame ss) (t, w) = (t\<lparr>written := written t @ ss\<rparr>, w) \<and>
   display (fst (fold ws_onmessage (map TextFrame ss) (t, w))) = display t @ concat ss"
proof -
  have "map payload (map TextFrame ss) = ss"
    by (induction ss) (simp_all add: payload_def)
  then have "fold ws_onmessage (map TextFrame ss) (t, w) = (t\<lparr>written := written t @ ss\<rparr>, w)"
    by (simp add: fold_ws_onmessage)
  then show ?thesis
    by (simp add: ws_onmessage_def term_write_def display_def payload_def)
qed

text \<open>
  C10. A frame that is not a string makes the handler write the empty string: the write
  log grows by \<open>''\<close>, what is displayed stays as it was, the socket and the dimensions are
  untouched, and the handler has no failing branch. Within any run of frames, such a frame
  leaves the display as if it had not arrived.
\<close>

theorem ws_onmessage_binary_discarded:
  "ws_onmessage (BinaryFrame b) (t, w) = (t\<lparr>written := written t @ [[]]\<rparr>, w) \<and>
   display (fst (ws_onmessage (BinaryFrame b) (t, w))) = display t \<and>
   display (fst (fold ws_onmessage (before @ BinaryFrame b # after) (t, w)))
     = display (fst (fold ws_onmessage (before @ after) (t, w)))"
  by (simp add: fold_ws_onmessage ws_onmessage_def term_write_def display_def payload_def)

section \<open>CommandExecutor: the AI Runner\<close>

text \<open>
  What the checkboxes show after each way of changing the selection: everything checked
  when a plan arrives and after Select All, the given value after a checkbox change (for
  the steps with that id, no other step changing), and after Clear nothing checked but a
  step whose id names an inherited property.
\<close>

lemma select_every_fold:
  "js_truthy_at (fold (\<lambda>s sel. js_assign (step_id s) True sel) steps sel0) k
     = (k \<in> step_id ` set steps \<or> js_truthy_at sel0 k)"
proof (induction steps arbitrary: sel0)
  case Nil
  then show ?case by simp
next
  case (Cons s steps)
  have "js_truthy_at (js_assign (step_id s) True sel0) k = (k = step_id s \<or> js_truthy_at sel0 k)"
    by (auto simp: js_truthy_at_def js_assign_def object_prototype_keys_def)
  with Cons.IH [of "js_assign (step_id s) True sel0"] show ?case
    by auto
qed

lemma checked_after_selection:
  "s \<in> set steps \<Longrightarrow> checked (plan_answered steps st) s"
  "s \<in> set (aiSteps st) \<Longrightarrow> checked (select_all st) s"
  "checked (onCheckedChange s c st) s' = (if step_id s' = step_id s then c else checked st s')"
  "checked (clear_selection st) s = (step_id s \<in> set object_prototype_keys)"
proof -
  show "s \<in> set steps \<Longrightarrow> checked (plan_answered steps st) s"
    by (simp add: checked_def plan_answered_def toast_show_def select_every_def select_every_fold)
  show "s \<in> set (aiSteps st) \<Longrightarrow> checked (select_all st) s"
    by (simp add: checked_def select_all_def select_every_def select_every_fold)
  show "checked (onCheckedChange s c st) s' = (if step_id s' = step_id s then c else checked st s')"
    by (simp add: checked_def onCheckedChange_def js_truthy_at_def)
  show "checked (clear_selection st) s = (step_id s \<in> set object_prototype_keys)"
    by (simp add: checked_def clear_selection_def js_truthy_at_def)
qed

text \<open>Run Plan posts the commands of the steps whose checkbox shows checked.\<close>

lemma run_plan_posts_checked:
  assumes "aiSteps st \<noteq> []"
  shows "(filter (checked st) (aiSteps st) \<noteq> [] \<longrightarrow>
            requests (click RunPlan st)
              = requests st @ [PostExecute (map command (filter (checked st) (aiSteps st)))] \<and>
            toasts (click RunPlan st) = toasts st) \<and>
         (filter (checked st) (aiSteps st) = [] \<longrightarrow>
            requests (click RunPlan st) = requests st \<and>
            toasts (click RunPlan st) = toasts st @ [ToastError ''Select at least one step''])"
  using assms
  by (simp add: click_def runPlan_def checked_def[abs_def] toast_show_def issue_def Let_def)

text \<open>The user's actions change neither the plan on display, nor the requests, nor the toasts.\<close>

lemma act_frame:
  "aiSteps (act a st) = aiSteps st"
  "requests (act a st) = requests st"
  "toasts (act a st) = toasts st"
  by (cases a; simp add: onCheckedChange_def select_all_def clear_selection_def)+

lemma fold_act_frame:
  "aiSteps (fold act acts st) = aiSteps st \<and>
   requests (fold act acts st) = requests st \<and>
   toasts (fold act acts st) = toasts st"
  by (induction acts arbitrary: st) (simp_all add: act_frame)

text \<open>
  For a plan none of whose step ids names an inherited property, the checkboxes show the
  user's selection after every action.
\<close>

lemma checked_fold_act:
  assumes "\<forall>s \<in> set (aiSteps st). step_id s \<notin> set object_prototype_keys"
    and "\<forall>s \<in> set (aiSteps st). checked st s = (step_id s \<in> sel)"
    and "s \<in> set (aiSteps st)"
  shows "checked (fold act acts st) s
           = (step_id s \<in> fold (user_selection_after (aiSteps st)) acts sel)"
  using assms
proof (induction acts arbitrary: st sel)
  case Nil
  then show ?case by simp
next
  case (Cons a acts)
  have step: "\<forall>x \<in> set (aiSteps st).
                checked (act a st) x = (step_id x \<in> user_selection_after (aiSteps st) a sel)"
  proof
    fix x assume x: "x \<in> set (aiSteps st)"
    then have nx: "step_id x \<notin> set object_prototype_keys"
      using Cons.prems(1) by blast
    show "checked (act a st) x = (step_id x \<in> user_selection_after (aiSteps st) a sel)"
    proof (cases a)
      case (SetChecked y c)
      with x Cons.prems(2) show ?thesis
        by (auto simp: checked_after_selection(3))
    next
      case SelectAll
      with x show ?thesis
        by (auto simp: checked_after_selection(2))
    next
      case ClearSelection
      with nx show ?thesis
        by (simp add: checked_after_selection(4))
    qed
  qed
  have "checked (fold act acts (act a st)) s
          = (step_id s \<in> fold (user_selection_after (aiSteps (act a st))) acts
                             (user_selection_after (aiSteps st) a sel))"
    using Cons.prems step by (intro Cons.IH) (simp_all add: act_frame)
  then show ?case
    by (simp add: act_frame)
qed

text \<open>
  So for such a plan, whatever the user did with the selection since the plan arrived, Run
  Plan posts exactly the commands of the steps the user has selected, in the plan's order,
  and with none selected it posts nothing and shows the error toast.
\<close>

theorem run_plan_posts_user_selection:
  assumes "steps \<noteq> []"
    and "\<forall>s \<in> set steps. step_id s \<notin> set object_prototype_keys"
  shows "(filter (\<lambda>s. step_id s \<in> user_selection steps acts) steps \<noteq> [] \<longrightarrow>
            requests (click RunPlan (fold act acts (plan_answered steps st)))
              = requests st
                @ [PostExecute
                     (map command (filter (\<lambda>s. step_id s \<in> user_selection steps acts) steps))]) \<and>
         (filter (\<lambda>s. step_id s \<in> user_selection steps acts) steps = [] \<longrightarrow>
            requests (click RunPlan (fold act acts (plan_answered steps st))) = requests st \<and>
            toasts (click RunPlan (fold act acts (plan_answered steps st)))
              = toasts st @ [ToastSuccess ''Plan ready'', ToastError ''Select at least one step''])"
proof -
  let ?st0 = "plan_answered steps st"
  let ?st1 = "fold act acts ?st0"
  have st0: "aiSteps ?st0 = steps" "requests ?st0 = requests st"
      "toasts ?st0 = toasts st @ [ToastSuccess ''Plan ready'']"
    by (simp_all add: plan_answered_def toast_show_def)
  have st1: "aiSteps ?st1 = steps" "requests ?st1 = requests st"
      "toasts ?st1 = toasts st @ [ToastSuccess ''Plan ready'']"
    using fold_act_frame [of acts ?st0] st0 by simp_all
  have "\<forall>s \<in> set steps. checked ?st0 s = (step_id s \<in> set (map step_id steps))"
    by (auto simp: checked_after_selection(1))
  then have "\<forall>s \<in> set steps. checked ?st1 s = (step_id s \<in> user_selection steps acts)"
    using checked_fold_act [of ?st0 "set (map step_id steps)" _ acts] assms(2) st0(1)
    by (simp add: user_selection_def)
  then have "filter (checked ?st1) steps
               = filter (\<lambda>s. step_id s \<in> user_selection steps acts) steps"
    by (intro filter_cong) simp_all
  with run_plan_posts_checked [of ?st1] st1 assms(1) show ?thesis
    by simp
qed

theorem run_plan_posts_user_selection_witness:
  "aiSteps example_executor \<noteq> [] \<and>
   user_selection (aiSteps example_executor)
       [ClearSelection, SetChecked \<lparr>step_id = ''2'', description = ''Routes'',
                                     command = ''show ip route''\<rparr> True]
     = {''2''} \<and>
   requests (click RunPlan
      (fold act [ClearSelection, SetChecked \<lparr>step_id = ''2'', description = ''Routes'',
                                              command = ''show ip route''\<rparr> True]
         (plan_answered (aiSteps example_executor) example_executor)))
     = [PostExecute [''show ip route'']] \<and>
   requests (click RunPlan
      (fold act [ClearSelection] (plan_answered (aiSteps example_executor) example_executor)))
     = [] \<and>
   toasts (click RunPlan
      (fold act [ClearSelection] (plan_answered (aiSteps example_executor) example_executor)))
     = [ToastSuccess ''Plan ready'', ToastError ''Select at least one step'']"
  using run_plan_posts_user_selection [of "aiSteps example_executor"
      "[ClearSelection, SetChecked \<lparr>step_id = ''2'', description = ''Routes'',
                                      command = ''show ip route''\<rparr> True]" example_executor]
    run_plan_posts_user_selection [of "aiSteps example_executor" "[ClearSelection]"
      example_executor]
  by (simp add: example_executor_def user_selection_def object_prototype_keys_def)

text \<open>
  C1, at a plan with a step whose id names an inherited property. The plan arrives, the
  user presses Clear and so has no step selected; the checkbox of the step with id
  \<open>toString\<close> still shows checked, because \<open>aiSelected['toString']\<close> reads the inherited
  function, and Run Plan posts that step's command and shows no error.
\<close>

theorem run_plan_after_clear_inherited_id:
  "user_selection
     [\<lparr>step_id = ''toString'', description = ''Version'', command = ''show version''\<rparr>]
     [ClearSelection] = {} \<and>
   requests (click RunPlan
      (fold act [ClearSelection]
         (plan_answered
            [\<lparr>step_id = ''toString'', description = ''Version'', command = ''show version''\<rparr>]
            example_executor)))
     = [PostExecute [''show version'']] \<and>
   toasts (click RunPlan
      (fold act [ClearSelection]
         (plan_answered
            [\<lparr>step_id = ''toString'', description = ''Version'', command = ''show version''\<rparr>]
            example_executor)))
     = [ToastSuccess ''Plan ready'']"
  by (simp add: user_selection_def click_def runPlan_def plan_answered_def clear_selection_def
        select_every_def js_assign_def js_truthy_at_def object_prototype_keys_def
        toast_show_def issue_def example_executor_def Let_def)

section \<open>CommandExecutor: messages of the execution websocket\<close>

text \<open>
  C4, at a command named like a property every object inherits. A started event for the
  command \<open>constructor\<close>, which has no live output, creates no entry, because
  \<open>'constructor' in next\<close> is true of any plain object; and a completed event for the command
  \<open>__proto__\<close> with a string output stores nothing, because the assignment reaches the
  inherited setter.
\<close>

theorem progress_update_inherited_names:
  "progress_update ''constructor'' (JString ''started'') JUndefined Map.empty ''constructor'' = None \<and>
   progress_update ''__proto__'' (JString ''completed'') (JString ''ok'') Map.empty ''__proto__'' = None"
  by (simp add: progress_update_def js_in_def js_assign_def object_prototype_keys_def)

text \<open>
  For every other command the updater is the dictionary update: started creates an empty
  entry where there is none and leaves an existing one, completed or error with a string
  output stores the output, and no other command's entry changes.
\<close>

theorem progress_update_own_names:
  assumes "cmd \<notin> set object_prototype_keys"
  shows "(status = JString ''started'' \<and> prev cmd = None \<longrightarrow>
            progress_update cmd status output prev = prev(cmd \<mapsto> [])) \<and>
         (status = JString ''started'' \<and> prev cmd \<noteq> None \<longrightarrow>
            progress_update cmd status output prev = prev) \<and>
         ((status = JString ''completed'' \<or> status = JString ''error'') \<and> output = JString out \<longrightarrow>
            progress_update cmd status output prev = prev(cmd \<mapsto> out)) \<and>
         (\<forall>other. other \<noteq> cmd \<longrightarrow> progress_update cmd status output prev other = prev other)"
  using assms
  by (auto simp add: progress_update_def js_in_def js_assign_def object_prototype_keys_def
        split: js_value.splits)

theorem progress_update_own_names_witness:
  "''show version'' \<notin> set object_prototype_keys \<and>
   progress_update ''show version'' (JString ''started'') JUndefined Map.empty
     = [''show version'' \<mapsto> []] \<and>
   progress_update ''show version'' (JString ''completed'') (JString ''IOS 15.2'')
       [''show version'' \<mapsto> []]
     = [''show version'' \<mapsto> ''IOS 15.2'']"
  using progress_update_own_names [of "''show version''" "JString ''started''" Map.empty JUndefined]
    progress_update_own_names [of "''show version''" "JString ''completed''"
      "[''show version'' \<mapsto> []]" "JString ''IOS 15.2''" "''IOS 15.2''"]
  by (simp add: object_prototype_keys_def)

text \<open>
  C6. An \<open>execution_failed\<close> message always adds the error toast
  \<open>Execution failed: <error>\<close> and clears \<open>isExecuting\<close>; with a truthy \<open>execution_id\<close> it
  issues the GET of that execution, and the snapshot that request returns becomes the
  execution on display. The first version of the component shows the same toast and
  clears the flag as well (it has no snapshot to fetch).
\<close>

theorem execution_failed_reported:
  assumes "msg_type data = JString ''execution_failed''"
  shows "toasts (handleWebSocketMessage data st)
           = toasts st @ [ToastError (''Execution failed: '' @ msg_error data)] \<and>
         \<not> isExecuting (handleWebSocketMessage data st) \<and>
         (js_truthy (msg_execution_id data) \<longrightarrow>
            requests (handleWebSocketMessage data st)
              = requests st @ [GetExecution (msg_execution_id data)]) \<and>
         execution (execution_answered (Some snapshot) (handleWebSocketMessage data st))
           = Some snapshot \<and>
         toasts (handleWebSocketMessage_basic data b)
           = toasts b @ [ToastError (''Execution failed: '' @ msg_error data)] \<and>
         \<not> isExecuting (handleWebSocketMessage_basic data b)"
  using assms
  by (simp add: handleWebSocketMessage_def handleWebSocketMessage_basic_def toast_show_def
        loadExecutionHistory_def issue_def fetch_execution_def execution_answered_def)

theorem execution_failed_reported_witness:
  "msg_type example_failed = JString ''execution_failed'' \<and>
   js_truthy (msg_execution_id example_failed) \<and>
   toasts (handleWebSocketMessage example_failed (example_executor\<lparr>isExecuting := True\<rparr>))
     = [ToastError ''Execution failed: device unreachable''] \<and>
   \<not> isExecuting (handleWebSocketMessage example_failed (example_executor\<lparr>isExecuting := True\<rparr>)) \<and>
   requests (handleWebSocketMessage example_failed (example_executor\<lparr>isExecuting := True\<rparr>))
     = [GetExecution (JString ''e1'')]"
  using execution_failed_reported [of example_failed "example_executor\<lparr>isExecuting := True\<rparr>"]
  by (simp add: example_failed_def example_executor_def)

text \<open>
  C8. On any message, from states that agree on \<open>isExecuting\<close>, the handlers of the two
  versions leave the same \<open>isExecuting\<close>: false after \<open>execution_completed\<close> and
  \<open>execution_failed\<close>, and what it was after anything else.
\<close>

theorem handlers_agree_on_isExecuting:
  assumes "isExecuting b = isExecuting e"
  shows "isExecuting (handleWebSocketMessage_basic data b)
           = isExecuting (handleWebSocketMessage data e) \<and>
         isExecuting (handleWebSocketMessage data e) =
           (if msg_type data = JString ''execution_completed'' \<or>
               msg_type data = JString ''execution_failed''
            then False else isExecuting e)"
  using assms
  by (simp add: handleWebSocketMessage_basic_def handleWebSocketMessage_def toast_show_def
        loadExecutionHistory_def issue_def fetch_execution_def)

theorem handlers_agree_on_isExecuting_witness:
  "isExecuting (command_executor.truncate (example_executor\<lparr>isExecuting := True\<rparr>))
     = isExecuting (example_executor\<lparr>isExecuting := True\<rparr>) \<and>
   \<not> isExecuting (handleWebSocketMessage_basic example_failed
         (command_executor.truncate (example_executor\<lparr>isExecuting := True\<rparr>))) \<and>
   \<not> isExecuting (handleWebSocketMessage example_failed (example_executor\<lparr>isExecuting := True\<rparr>)) \<and>
   isExecuting (handleWebSocketMessage (example_failed\<lparr>msg_type := JString ''execution_progress''\<rparr>)
                  (example_executor\<lparr>isExecuting := True\<rparr>))"
  using handlers_agree_on_isExecuting
      [of "command_executor.truncate (example_executor\<lparr>isExecuting := True\<rparr>)"
          "example_executor\<lparr>isExecuting := True\<rparr>" example_failed]
    handlers_agree_on_isExecuting
      [of "command_executor.truncate (example_executor\<lparr>isExecuting := True\<rparr>)"
          "example_executor\<lparr>isExecuting := True\<rparr>"
          "example_failed\<lparr>msg_type := JString ''execution_progress''\<rparr>"]
  by (simp add: example_failed_def example_executor_def command_executor.truncate_def)

section \<open>CommandExecutor: submitting\<close>

text \<open>
  C7, on the client. Execute Commands sets \<open>isExecuting\<close> and posts; while \<open>isExecuting\<close>
  holds a second click on it does nothing, but a click on Run Plan posts a second command
  list to the execute endpoint; and when that second request is refused, Run Plan's error
  path clears \<open>isExecuting\<close> although the first execution has not ended.
\<close>

theorem run_plan_while_executing:
  "isExecuting (click ExecuteCommands (example_executor\<lparr>customCommands := []\<rparr>)) \<and>
   click ExecuteCommands (click ExecuteCommands (example_executor\<lparr>customCommands := []\<rparr>))
     = click ExecuteCommands (example_executor\<lparr>customCommands := []\<rparr>) \<and>
   requests (click RunPlan (click ExecuteCommands (example_executor\<lparr>customCommands := []\<rparr>)))
     = [PostExecute [''show version'', ''show clock''],
        PostExecute [''show ip bgp summary'', ''show ip interface brief'']] \<and>
   \<not> isExecuting
       (runPlan_answered None
          (click RunPlan (click ExecuteCommands (example_executor\<lparr>customCommands := []\<rparr>))))"
  by (simp add: click_def example_executor_def handleExecuteCommands_def runPlan_def
        runPlan_answered_def issue_def toast_show_def js_truthy_at_def trim_def Let_def)

section \<open>Lines: splitting and joining\<close>

lemma split_nl_not_Nil: "split_nl s \<noteq> []"
  by (induction s) (auto split: list.splits)

lemma split_nl_no_NL: "l \<in> set (split_nl s) \<Longrightarrow> NL \<notin> set l"
proof (induction s arbitrary: l)
  case Nil
  then show ?case by simp
next
  case (Cons c cs)
  then show ?case
    by (cases "split_nl cs") (auto split: if_splits)
qed

lemma split_nl_line: "NL \<notin> set l \<Longrightarrow> split_nl l = [l]"
  by (induction l) auto

lemma split_nl_append: "NL \<notin> set l \<Longrightarrow> split_nl (l @ NL # r) = l # split_nl r"
  by (induction l) auto

lemma split_join_nl:
  "ls \<noteq> [] \<Longrightarrow> \<forall>l \<in> set ls. NL \<notin> set l \<Longrightarrow> split_nl (join_nl ls) = ls"
proof (induction ls rule: join_nl.induct)
  case 1
  then show ?case by simp
next
  case (2 l)
  then show ?case by (simp add: split_nl_line)
next
  case (3 l m ls)
  then show ?case by (simp add: split_nl_append)
qed

lemma join_split_nl: "join_nl (split_nl s) = s"
proof (induction s)
  case Nil
  then show ?case by simp
next
  case (Cons c cs)
  show ?case
  proof (cases "split_nl cs")
    case Nil
    then show ?thesis using split_nl_not_Nil by blast
  next
    case (Cons l ls)
    with Cons.IH show ?thesis by (cases ls) auto
  qed
qed

section \<open>CommandExecutor: clearing the commands that ran\<close>

text \<open>
  C9. With an execution present, \<open>clearRanCommands\<close> keeps of the selected commands, in
  their order, exactly those that are not among the execution's commands, and makes the
  custom text the join of exactly those of its lines whose trimmed text is not among them,
  each as it was: split again, the new text gives those lines (when all lines go, the text
  is empty; when none goes, the text is what it was). The execution, the flag, the requests
  and the AI Runner are untouched.
\<close>

theorem clearRanCommands_removes_ran:
  assumes "execution st = Some e"
  shows "ran_commands (execution st) = (case commands e of None \<Rightarrow> {} | Some cs \<Rightarrow> set cs) \<and>
         selectedCommands (clearRanCommands st)
           = filter (\<lambda>c. c \<notin> ran_commands (execution st)) (selectedCommands st) \<and>
         customCommands (clearRanCommands st)
           = join_nl (filter (\<lambda>l. trim l \<notin> ran_commands (execution st))
                        (split_nl (customCommands st))) \<and>
         (filter (\<lambda>l. trim l \<notin> ran_commands (execution st)) (split_nl (customCommands st)) \<noteq> []
            \<longrightarrow> split_nl (customCommands (clearRanCommands st))
                  = filter (\<lambda>l. trim l \<notin> ran_commands (execution st))
                      (split_nl (customCommands st))) \<and>
         (filter (\<lambda>l. trim l \<notin> ran_commands (execution st)) (split_nl (customCommands st)) = []
            \<longrightarrow> customCommands (clearRanCommands st) = []) \<and>
         (filter (\<lambda>l. trim l \<notin> ran_commands (execution st)) (split_nl (customCommands st))
            = split_nl (customCommands st)
            \<longrightarrow> customCommands (clearRanCommands st) = customCommands st) \<and>
         execution (clearRanCommands st) = execution st \<and>
         isExecuting (clearRanCommands st) = isExecuting st \<and>
         requests (clearRanCommands st) = requests st \<and>
         aiSteps (clearRanCommands st) = aiSteps st \<and>
         aiSelected (clearRanCommands st) = aiSelected st"
proof -
  let ?ran = "ran_commands (execution st)"
  let ?kept = "filter (\<lambda>l. trim l \<notin> ?ran) (split_nl (customCommands st))"
  have ran: "?ran = (case commands e of None \<Rightarrow> {} | Some cs \<Rightarrow> set cs)"
    using assms by (simp add: ran_commands_def split: option.splits)
  have sel: "selectedCommands (clearRanCommands st)
               = filter (\<lambda>c. c \<notin> ?ran) (selectedCommands st)"
    using assms by (simp add: clearRanCommands_def toast_show_def Let_def)
  have cus: "customCommands (clearRanCommands st) = join_nl ?kept"
    using assms by (simp add: clearRanCommands_def toast_show_def Let_def)
  have frame: "execution (clearRanCommands st) = execution st"
      "isExecuting (clearRanCommands st) = isExecuting st"
      "requests (clearRanCommands st) = requests st"
      "aiSteps (clearRanCommands st) = aiSteps st"
      "aiSelected (clearRanCommands st) = aiSelected st"
    by (simp_all add: clearRanCommands_def toast_show_def Let_def)
  have "\<forall>l \<in> set ?kept. NL \<notin> set l"
    using split_nl_no_NL by auto
  then have again: "?kept \<noteq> [] \<Longrightarrow> split_nl (join_nl ?kept) = ?kept"
    by (rule split_join_nl[rotated])
  have none: "?kept = [] \<Longrightarrow> join_nl ?kept = []"
    by simp
  have same: "?kept = split_nl (customCommands st) \<Longrightarrow> join_nl ?kept = customCommands st"
    by (simp add: join_split_nl)
  from ran sel cus frame again none same show ?thesis
    by simp
qed

theorem clearRanCommands_removes_ran_witness:
  "execution example_executor
     = Some \<lparr>exec_id = ''e1'', exec_status = ''completed'',
             commands = Some [''show version'', ''show ip route'']\<rparr> \<and>
   selectedCommands (clearRanCommands example_executor) = [''show clock''] \<and>
   customCommands (clearRanCommands example_executor) = ''show arp''"
  using clearRanCommands_removes_ran [of example_executor
      "\<lparr>exec_id = ''e1'', exec_status = ''completed'',
        commands = Some [''show version'', ''show ip route'']\<rparr>"]
  by (simp add: example_executor_def ran_commands_def trim_def is_space_def)

section \<open>AIChat: what the extracted list holds\<close>

text \<open>
  C5, at a reply with a commented dollar line. The code block gives \<open>ls\<close> and drops the
  comment; the scan for dollar lines runs over the whole text, code block included, and
  keeps the comment line as a command.
\<close>

theorem extract_keeps_dollar_comment:
  "extractCommandsFromText
     (''```bash'' @ [NL] @ ''$ # list files'' @ [NL] @ ''$ ls'' @ [NL] @ ''```'')
     = [''ls'', ''# list files''] \<and>
   is_comment (trim (strip_prompt ''# list files'')) \<and>
   extractCommandsFromText ''$ #x'' = [''#x''] \<and>
   extractCommandsFromText ''$  '' = ['' ''] \<and>
   trim (strip_prompt '' '') = []"
  by code_simp

lemma dedupe_set: "set (dedupe cs (set u) u) = set u \<union> set cs"
proof (induction cs arbitrary: u)
  case Nil
  then show ?case by simp
next
  case (Cons c cs)
  show ?case
  proof (cases "c \<in> set u")
    case True
    then show ?thesis using Cons.IH [of u] by auto
  next
    case False
    then have "dedupe (c # cs) (set u) u = dedupe cs (set (u @ [c])) (u @ [c])"
      by simp
    then show ?thesis using Cons.IH [of "u @ [c]"] by auto
  qed
qed

lemma dedupe_distinct: "distinct u \<Longrightarrow> distinct (dedupe cs (set u) u)"
proof (induction cs arbitrary: u)
  case Nil
  then show ?case by simp
next
  case (Cons c cs)
  show ?case
  proof (cases "c \<in> set u")
    case True
    then show ?thesis using Cons by simp
  next
    case False
    then have "dedupe (c # cs) (set u) u = dedupe cs (set (u @ [c])) (u @ [c])"
      by simp
    moreover have "distinct (u @ [c])"
      using False Cons.prems by simp
    ultimately show ?thesis using Cons.IH [of "u @ [c]"] by simp
  qed
qed

lemma remdups_snoc: "remdups (xs @ [c]) = filter (\<lambda>x. x \<noteq> c) (remdups xs) @ [c]"
  by (induction xs) auto

lemma dedupe_first_occurrences:
  "dedupe cs (set u) u = u @ rev (remdups (rev (filter (\<lambda>c. c \<notin> set u) cs)))"
proof (induction cs arbitrary: u)
  case Nil
  then show ?case by simp
next
  case (Cons c cs)
  show ?case
  proof (cases "c \<in> set u")
    case True
    then show ?thesis using Cons.IH [of u] by simp
  next
    case False
    have "dedupe (c # cs) (set u) u = dedupe cs (set (u @ [c])) (u @ [c])"
      using False by simp
    also have "\<dots> = (u @ [c]) @ rev (remdups (rev (filter (\<lambda>x. x \<notin> set (u @ [c])) cs)))"
      by (rule Cons.IH)
    also have "filter (\<lambda>x. x \<notin> set (u @ [c])) cs
                 = filter (\<lambda>x. x \<noteq> c) (filter (\<lambda>x. x \<notin> set u) cs)"
      by (induction cs) auto
    finally show ?thesis
      using False by (simp add: remdups_snoc remdups_filter rev_filter)
  qed
qed

lemma dedupe_from_empty:
  "set (dedupe cs {} []) = set cs"
  "distinct (dedupe cs {} [])"
  "dedupe cs {} [] = rev (remdups (rev cs))"
  using dedupe_set [of cs "[]"] dedupe_distinct [of "[]" cs] dedupe_first_occurrences [of cs "[]"]
  by simp_all

lemma block_commands_clean:
  "c \<in> set (block_commands g) \<Longrightarrow> c \<noteq> [] \<and> \<not> is_comment c"
  by (auto simp: block_commands_def)

text \<open>
  What does hold of the extracted list, for every text: no command occurs twice, each is
  kept at its first occurrence in the order of the code-block commands followed by the
  dollar lines, there are at most 20, and none is the empty string.
\<close>

theorem extract_distinct_bounded:
  "distinct (extractCommandsFromText text) \<and>
   length (extractCommandsFromText text) \<le> 20 \<and>
   [] \<notin> set (extractCommandsFromText text) \<and>
   extractCommandsFromText text
     = take 20 (rev (remdups (rev (concat (map block_commands (code_blocks text))
                                    @ dollar_lines text))))"
proof (cases "text = []")
  case True
  then have "extractCommandsFromText text = []"
    by (simp add: extractCommandsFromText_def)
  moreover have "dollar_lines [] = []"
    by (simp add: dollar_lines_def dollar_line_def)
  moreover have "code_blocks [] = []"
    by (subst code_blocks.simps) (simp add: block_at_def block_open_def)
  ultimately show ?thesis using True by simp
next
  case False
  let ?cmds = "concat (map block_commands (code_blocks text)) @ dollar_lines text"
  have ex: "extractCommandsFromText text = take 20 (dedupe ?cmds {} [])"
    using False by (simp add: extractCommandsFromText_def Let_def)
  have d: "distinct (dedupe ?cmds {} [])"
    by (rule dedupe_from_empty)
  have s: "set (dedupe ?cmds {} []) = set ?cmds"
    by (rule dedupe_from_empty)
  have "[] \<notin> set (dollar_lines text)"
    by (auto simp: dollar_lines_def List.map_filter_def split: option.splits if_splits)
  moreover have "[] \<notin> set (concat (map block_commands (code_blocks text)))"
    using block_commands_clean by auto
  ultimately have ne: "[] \<notin> set (dedupe ?cmds {} [])"
    using s by simp
  have f: "dedupe ?cmds {} [] = rev (remdups (rev ?cmds))"
    by (rule dedupe_from_empty)
  from ex d ne f show ?thesis
    by (auto dest: in_set_takeD)
qed

end
